theory Spec2Isabelle
  imports Main
begin

section \<open>JavaScript values\<close>

text \<open>
  The values that flow through the todo store. A primitive is compared by \<open>===\<close> by value.
  A \<open>TodoItem\<close> object is its identity (a reference) together with its \<open>text\<close> field,
  which the program never reassigns after construction. \<open>Rec\<close> is a plain object with
  primitive fields and \<open>Arr\<close> an array: the values \<open>JSON.parse\<close> hands to \<open>replaceList\<close>.
  Numbers, functions, nested records and \<open>Set\<close> arguments are left out of the model;
  strings are lists of characters.
\<close>

type_synonym ref = nat

datatype prim = Undefined | Null | Bool bool | Str string

datatype jsval =
    Prim prim
  | TodoItem ref prim
  | Rec "(string \<times> prim) list"
  | Arr "jsval list"

datatype error = TypeError | SyntaxError | Thrown nat

text \<open>
  An observer is a function reference: its identity and whether calling it throws. What a
  callback does besides (rendering, saving) is opaque; each call is recorded in \<open>calls\<close>.
\<close>

datatype callback = Callback (cb_id: nat) (cb_throws: bool)

text \<open>
  The state of the page: the private \<open>#data\<close> Set of the single \<open>TodoList\<close> instance and
  the module-level \<open>observers\<close> Set of \<open>todo/mixin.js\<close>, both in insertion order, the next
  fresh object identity, and two histories kept for stating properties: the callbacks called
  so far and the number of \<open>notify()\<close> calls.
\<close>

record state =
  data :: "jsval list"
  observers :: "callback list"
  next_id :: nat
  calls :: "callback list"
  notifications :: nat

definition init :: state where
  "init = \<lparr>data = [], observers = [], next_id = 0, calls = [], notifications = 0\<rparr>"

subsection \<open>Set.prototype.add, delete\<close>

definition Set_add :: "'a \<Rightarrow> 'a list \<Rightarrow> 'a list" where
  "Set_add x xs = (if x \<in> set xs then xs else xs @ [x])"

definition Set_delete :: "'a \<Rightarrow> 'a list \<Rightarrow> 'a list" where
  "Set_delete x xs = removeAll x xs"

subsection \<open>Property access, truthiness\<close>

text \<open>\<open>x.text\<close>: a TypeError on \<open>null\<close> and \<open>undefined\<close>, \<open>undefined\<close> where the property is missing.\<close>

fun get_text :: "jsval \<Rightarrow> error + prim" where
  "get_text (Prim Undefined) = Inl TypeError"
| "get_text (Prim Null) = Inl TypeError"
| "get_text (Prim (Bool b)) = Inr Undefined"
| "get_text (Prim (Str s)) = Inr Undefined"
| "get_text (TodoItem r t) = Inr t"
| "get_text (Rec fs) = Inr (case map_of fs ''text'' of None \<Rightarrow> Undefined | Some v \<Rightarrow> v)"
| "get_text (Arr xs) = Inr Undefined"

fun truthy :: "jsval \<Rightarrow> bool" where
  "truthy (Prim Undefined) = False"
| "truthy (Prim Null) = False"
| "truthy (Prim (Bool b)) = b"
| "truthy (Prim (Str s)) = (s \<noteq> [])"
| "truthy (TodoItem r t) = True"
| "truthy (Rec fs) = True"
| "truthy (Arr xs) = True"

section \<open>todo/mixin.js: the observer mixin\<close>

definition addObserver :: "callback \<Rightarrow> state \<Rightarrow> state" where
  "addObserver obs s = s\<lparr>observers := Set_add obs (observers s)\<rparr>"

definition removeObserver :: "callback \<Rightarrow> state \<Rightarrow> state" where
  "removeObserver obs s = s\<lparr>observers := Set_delete obs (observers s)\<rparr>"

text \<open>\<open>observers.forEach((obs) => obs())\<close>: an exception leaves the loop and \<open>notify\<close>.\<close>

fun forEach_obs :: "callback list \<Rightarrow> state \<Rightarrow> (error + unit) \<times> state" where
  "forEach_obs [] s = (Inr (), s)"
| "forEach_obs (obs # rest) s =
     (let s1 = s\<lparr>calls := calls s @ [obs]\<rparr>
      in if cb_throws obs then (Inl (Thrown (cb_id obs)), s1) else forEach_obs rest s1)"

definition notify :: "state \<Rightarrow> (error + unit) \<times> state" where
  "notify s = forEach_obs (observers s) (s\<lparr>notifications := notifications s + 1\<rparr>)"

section \<open>todo/classes.js: TodoItem and TodoList\<close>

text \<open>\<open>new TodoItem(text)\<close>: a fresh object. A second constructor argument is ignored.\<close>

definition new_TodoItem :: "prim \<Rightarrow> state \<Rightarrow> jsval \<times> state" where
  "new_TodoItem text s = (TodoItem (next_id s) text, s\<lparr>next_id := next_id s + 1\<rparr>)"

text \<open>
  \<open>todo.equals(other)\<close>, that is \<open>this.text === other.text\<close>: only a \<open>TodoItem\<close> has the
  method, and reading \<open>other.text\<close> throws on \<open>null\<close> and \<open>undefined\<close>.
\<close>

fun equals :: "jsval \<Rightarrow> jsval \<Rightarrow> error + bool" where
  "equals (TodoItem r t) other =
     (case get_text other of Inl e \<Rightarrow> Inl e | Inr t' \<Rightarrow> Inr (t = t'))"
| "equals (Prim p) other = Inl TypeError"
| "equals (Rec fs) other = Inl TypeError"
| "equals (Arr xs) other = Inl TypeError"

definition items :: "state \<Rightarrow> jsval list" where
  "items s = data s"

text \<open>\<open>[...this.#data].some((todo) => todo.equals(item))\<close>\<close>

fun some_equals :: "jsval list \<Rightarrow> jsval \<Rightarrow> error + bool" where
  "some_equals [] item = Inr False"
| "some_equals (todo # rest) item =
     (case equals todo item of
        Inl e \<Rightarrow> Inl e
      | Inr b \<Rightarrow> if b then Inr True else some_equals rest item)"

definition exists :: "jsval \<Rightarrow> state \<Rightarrow> error + bool" where
  "exists item s = some_equals (data s) item"

text \<open>\<open>[...this.#data].find((item) => item.text === text)\<close>, \<open>undefined\<close> when none is found.\<close>

fun find_text :: "jsval list \<Rightarrow> jsval \<Rightarrow> error + jsval" where
  "find_text [] text = Inr (Prim Undefined)"
| "find_text (item # rest) text =
     (case get_text item of
        Inl e \<Rightarrow> Inl e
      | Inr t \<Rightarrow> if Prim t = text then Inr item else find_text rest text)"

definition findByText :: "jsval \<Rightarrow> state \<Rightarrow> error + jsval" where
  "findByText text s = find_text (data s) text"

definition add :: "jsval \<Rightarrow> state \<Rightarrow> (error + bool) \<times> state" where
  "add item s =
     (case exists item s of
        Inl e \<Rightarrow> (Inl e, s)
      | Inr b \<Rightarrow>
          if b then (Inr False, s)
          else (case notify (s\<lparr>data := Set_add item (data s)\<rparr>) of
                  (Inl e, s') \<Rightarrow> (Inl e, s')
                | (Inr u, s') \<Rightarrow> (Inr True, s')))"

definition deleteByText :: "jsval \<Rightarrow> state \<Rightarrow> (error + bool) \<times> state" where
  "deleteByText text s =
     (case findByText text s of
        Inl e \<Rightarrow> (Inl e, s)
      | Inr item \<Rightarrow>
          if \<not> truthy item then (Inr False, s)
          else (case notify (s\<lparr>data := Set_delete item (data s)\<rparr>) of
                  (Inl e, s') \<Rightarrow> (Inl e, s')
                | (Inr u, s') \<Rightarrow> (Inr True, s')))"

text \<open>\<open>Array.isArray(list) ? list : [...list]\<close>: of the values modelled, only a string is iterable.\<close>

fun to_items :: "jsval \<Rightarrow> error + jsval list" where
  "to_items (Arr xs) = Inr xs"
| "to_items (Prim (Str cs)) = Inr (map (\<lambda>c. Prim (Str [c])) cs)"
| "to_items (Prim Undefined) = Inl TypeError"
| "to_items (Prim Null) = Inl TypeError"
| "to_items (Prim (Bool b)) = Inl TypeError"
| "to_items (TodoItem r t) = Inl TypeError"
| "to_items (Rec fs) = Inl TypeError"

text \<open>
  The body of \<open>items.forEach\<close> in \<open>replaceList\<close>: \<open>item.text\<close> (and \<open>item.completed\<close>, which
  throws exactly when \<open>item.text\<close> does) is read, a fresh \<open>TodoItem\<close> is built and added to
  \<open>#data\<close>.
\<close>

fun replace_loop :: "jsval list \<Rightarrow> state \<Rightarrow> (error + unit) \<times> state" where
  "replace_loop [] s = (Inr (), s)"
| "replace_loop (item # rest) s =
     (case get_text item of
        Inl e \<Rightarrow> (Inl e, s)
      | Inr t \<Rightarrow>
          (case new_TodoItem t s of
             (todoItem, s1) \<Rightarrow> replace_loop rest (s1\<lparr>data := Set_add todoItem (data s1)\<rparr>)))"

definition replaceList :: "jsval \<Rightarrow> state \<Rightarrow> (error + unit) \<times> state" where
  "replaceList list s =
     (let s0 = s\<lparr>data := []\<rparr>
      in case to_items list of
           Inl e \<Rightarrow> (Inl e, s0)
         | Inr its \<Rightarrow>
             (case replace_loop its s0 of
                (Inl e, s1) \<Rightarrow> (Inl e, s1)
              | (Inr u, s1) \<Rightarrow> notify s1))"

section \<open>lib/command.js: the command executor\<close>

datatype command = Command (cmd_type: jsval) (cmd_payload: jsval)

text \<open>The argument of \<open>CE.execute\<close>: a \<open>Command\<close> object, or \<open>undefined\<close> or \<open>null\<close>.\<close>

datatype cmdarg = CUndefined | CNull | CObj command

definition ADD_TODO :: jsval where
  "ADD_TODO = Prim (Str ''add'')"

definition REMOVE_TODO_BY_TEXT :: jsval where
  "REMOVE_TODO_BY_TEXT = Prim (Str ''deleteByText'')"

definition UPDATE_TODO :: jsval where
  "UPDATE_TODO = Prim (Str ''UPDATE_TODO'')"

definition CLEAR_TODO :: jsval where
  "CLEAR_TODO = Prim (Str ''CLEAR_TODO'')"

text \<open>The result of a store operation as the JavaScript value \<open>execute\<close> returns.\<close>

fun returned :: "(error + bool) \<times> state \<Rightarrow> (error + prim) \<times> state" where
  "returned (Inl e, s) = (Inl e, s)"
| "returned (Inr b, s) = (Inr (Bool b), s)"

fun execute :: "cmdarg \<Rightarrow> state \<Rightarrow> (error + prim) \<times> state" where
  "execute CUndefined s = (Inl TypeError, s)"
| "execute CNull s = (Inl TypeError, s)"
| "execute (CObj (Command type payload)) s =
     (if type = ADD_TODO then returned (add payload s)
      else if type = REMOVE_TODO_BY_TEXT then returned (deleteByText payload s)
      else if type = UPDATE_TODO then (Inr Undefined, s)
      else if type = CLEAR_TODO then (Inr Undefined, s)
      else (Inr Undefined, s))"

section \<open>lib/storage.js: loading from localStorage\<close>

text \<open>
  \<open>LocalStorage.load\<close>. The contents of \<open>localStorage\<close> and the host's \<open>JSON.parse\<close> are
  parameters; \<open>getItem\<close> answers \<open>null\<close> for a missing key, and \<open>if (data)\<close> also skips the
  empty string.
\<close>

definition load ::
  "(string \<Rightarrow> error + jsval) \<Rightarrow> (string \<rightharpoonup> string) \<Rightarrow> state \<Rightarrow> (error + unit) \<times> state" where
  "load parse localStorage s =
     (case localStorage ''todoList'' of
        None \<Rightarrow> (Inr (), s)
      | Some d \<Rightarrow>
          if d = [] then (Inr (), s)
          else (case parse d of
                  Inl e \<Rightarrow> (Inl e, s)
                | Inr v \<Rightarrow> replaceList v s))"

subsection \<open>The snapshot format\<close>

text \<open>
  \<open>JSON.parse\<close> belongs to the host, not to the repository. \<open>JSON_parse\<close> reads the compact
  text that \<open>save\<close> writes for a list of items whose texts need no escaping,
  \<open>[{"text":"a"},{"text":"b"}]\<close>, and answers a SyntaxError on any other input. It stands
  for the host's parser only at the concrete blobs evaluated below; the properties of
  \<open>load\<close> are stated for an arbitrary parser.
\<close>

fun strip_prefix :: "string \<Rightarrow> string \<Rightarrow> string option" where
  "strip_prefix [] s = Some s"
| "strip_prefix (p # ps) [] = None"
| "strip_prefix (p # ps) (c # cs) = (if p = c then strip_prefix ps cs else None)"

text \<open>The characters of a string literal after its opening quote, and what follows the closing one.\<close>

fun read_string :: "string \<Rightarrow> (string \<times> string) option" where
  "read_string [] = None"
| "read_string (c # cs) =
     (if c = CHR 0x22 then Some ([], cs)
      else if c = CHR 0x5C then None
      else (case read_string cs of None \<Rightarrow> None | Some (t, r) \<Rightarrow> Some (c # t, r)))"

function parse_records :: "string \<Rightarrow> jsval list option" where
  "parse_records s =
     (case strip_prefix ''{\"text\":\"'' s of
        None \<Rightarrow> None
      | Some r \<Rightarrow>
          (case read_string r of
             None \<Rightarrow> None
           | Some (t, r1) \<Rightarrow>
               if r1 = ''}]'' then Some [Rec [(''text'', Str t)]]
               else (case strip_prefix ''},'' r1 of
                       None \<Rightarrow> None
                     | Some r2 \<Rightarrow>
                         (case parse_records r2 of
                            None \<Rightarrow> None
                          | Some recs \<Rightarrow> Some (Rec [(''text'', Str t)] # recs)))))"
  by pat_completeness auto
termination
proof (relation "measure length", goal_cases)
  case 1
  show ?case by simp
next
  case (2 s r p t r1 r2)
  have shorter: "strip_prefix q u = Some v \<Longrightarrow> length v \<le> length u" for q u v
    by (induction q u rule: strip_prefix.induct) (auto split: if_splits)
  have consumed: "read_string u = Some (w, v) \<Longrightarrow> length v < length u" for u w v
    by (induction u arbitrary: w v) (auto split: if_splits option.splits)
  from 2 have "length r \<le> length s" "length r1 < length r" "length r2 \<le> length r1"
    by (auto dest: shorter consumed)
  then show ?case by simp
qed

definition JSON_parse :: "string \<Rightarrow> error + jsval" where
  "JSON_parse s =
     (if s = ''[]'' then Inr (Arr [])
      else (case strip_prefix ''['' s of
              None \<Rightarrow> Inl SyntaxError
            | Some r \<Rightarrow>
                (case parse_records r of
                   None \<Rightarrow> Inl SyntaxError
                 | Some recs \<Rightarrow> Inr (Arr recs))))"

section \<open>Vocabulary of the properties\<close>

text \<open>A store state as the specification sees it holds entries only.\<close>

fun is_TodoItem :: "jsval \<Rightarrow> bool" where
  "is_TodoItem (TodoItem r t) = True"
| "is_TodoItem (Prim p) = False"
| "is_TodoItem (Rec fs) = False"
| "is_TodoItem (Arr xs) = False"

text \<open>
  The page once its modules are loaded: the store is empty and two callbacks that return
  normally are registered, as \<open>LocalStorage.save\<close> and \<open>renderTodoList\<close> are.
\<close>

definition started :: state where
  "started = addObserver (Callback 1 False) (addObserver (Callback 0 False) init)"

text \<open>At most one entry per distinct text value.\<close>

definition unique_by_text :: "state \<Rightarrow> bool" where
  "unique_by_text s = distinct (map get_text (data s))"

text \<open>The objects \<open>replaceList\<close> builds for a list of texts, numbered from \<open>n\<close>.\<close>

fun fresh_items :: "nat \<Rightarrow> prim list \<Rightarrow> jsval list" where
  "fresh_items n [] = []"
| "fresh_items n (t # ts) = TodoItem n t # fresh_items (Suc n) ts"

section \<open>Properties\<close>

subsection \<open>Sets in insertion order\<close>

lemma Set_add_idem: "Set_add x (Set_add x xs) = Set_add x xs"
  by (simp add: Set_add_def)

lemma Set_add_distinct: "distinct xs \<Longrightarrow> distinct (Set_add x xs)"
  by (simp add: Set_add_def)

lemma Set_add_set: "set (Set_add x xs) = insert x (set xs)"
  by (auto simp: Set_add_def)

lemma Set_delete_distinct: "distinct xs \<Longrightarrow> distinct (Set_delete x xs)"
  by (simp add: Set_delete_def distinct_removeAll)

lemma find_takeWhile:
  "find P xs = Some x \<Longrightarrow> \<exists>zs. xs = takeWhile (\<lambda>y. \<not> P y) xs @ x # zs"
  by (induction xs) (auto split: if_splits)

lemma distinct_count_list:
  "distinct xs \<Longrightarrow> count_list xs c = (if c \<in> set xs then 1 else 0)"
  by (induction xs) auto

subsection \<open>The notification pass\<close>

lemma forEach_obs_find:
  "forEach_obs os s =
     (case find cb_throws os of
        None \<Rightarrow> (Inr (), s\<lparr>calls := calls s @ os\<rparr>)
      | Some c \<Rightarrow>
          (Inl (Thrown (cb_id c)),
           s\<lparr>calls := calls s @ takeWhile (\<lambda>obs. \<not> cb_throws obs) os @ [c]\<rparr>))"
  by (induction os arbitrary: s) (simp_all add: Let_def split: option.split)

lemma forEach_obs_frame:
  "data (snd (forEach_obs os s)) = data s"
  "observers (snd (forEach_obs os s)) = observers s"
  "next_id (snd (forEach_obs os s)) = next_id s"
  "notifications (snd (forEach_obs os s)) = notifications s"
  by (simp_all add: forEach_obs_find split: option.split)

lemma notify_frame:
  "data (snd (notify s)) = data s"
  "observers (snd (notify s)) = observers s"
  "next_id (snd (notify s)) = next_id s"
  "notifications (snd (notify s)) = notifications s + 1"
  by (simp_all add: notify_def forEach_obs_frame)

lemma notify_returns:
  "\<forall>obs \<in> set (observers s). \<not> cb_throws obs \<Longrightarrow> fst (notify s) = Inr ()"
  by (simp add: notify_def forEach_obs_find find_None_iff split: option.split)

lemma notify_no_TypeError: "fst (notify s) \<noteq> Inl TypeError"
  by (simp add: notify_def forEach_obs_find split: option.split)

lemma notify_throws:
  "find cb_throws (observers s) = Some c \<Longrightarrow> fst (notify s) = Inl (Thrown (cb_id c))"
  by (simp add: notify_def forEach_obs_find)

text \<open>Once a callback throws, the callbacks after it play no part in the pass.\<close>

lemma forEach_obs_append_throw:
  "\<exists>x \<in> set xs. cb_throws x \<Longrightarrow> forEach_obs (xs @ ys) s = forEach_obs xs s"
  by (induction xs arbitrary: s) (auto simp: Let_def)

text \<open>The callbacks called in one pass are a prefix of the registered ones.\<close>

lemma forEach_obs_calls:
  "\<exists>pre zs. os = pre @ zs \<and> calls (snd (forEach_obs os s)) = calls s @ pre
     \<and> (c \<in> set os \<and> (\<forall>obs \<in> set os. obs \<noteq> c \<longrightarrow> \<not> cb_throws obs) \<longrightarrow> c \<in> set pre)"
proof (cases "find cb_throws os")
  case None
  then show ?thesis
    by (intro exI [of _ os] exI [of _ "[]"]) (simp add: forEach_obs_find)
next
  case (Some x)
  from find_takeWhile [OF Some]
  obtain zs where zs: "os = takeWhile (\<lambda>y. \<not> cb_throws y) os @ x # zs" ..
  from Some have x: "x \<in> set os" "cb_throws x"
    by (auto simp: find_Some_iff)
  let ?pre = "takeWhile (\<lambda>y. \<not> cb_throws y) os @ [x]"
  have a: "os = ?pre @ zs"
    using zs by simp
  have b: "calls (snd (forEach_obs os s)) = calls s @ ?pre"
    using Some by (simp add: forEach_obs_find)
  have "c \<in> set ?pre"
    if "c \<in> set os \<and> (\<forall>obs \<in> set os. obs \<noteq> c \<longrightarrow> \<not> cb_throws obs)"
  proof -
    from that x have "x = c" by blast
    then show ?thesis by simp
  qed
  with a b show ?thesis by blast
qed

lemma addObserver_distinct: "distinct (observers s) \<Longrightarrow> distinct (observers (addObserver obs s))"
  by (simp add: addObserver_def Set_add_distinct)

lemma removeObserver_distinct:
  "distinct (observers s) \<Longrightarrow> distinct (observers (removeObserver obs s))"
  by (simp add: removeObserver_def Set_delete_distinct)

lemma started_eq:
  "started = \<lparr>data = [], observers = [Callback 0 False, Callback 1 False], next_id = 0,
     calls = [], notifications = 0\<rparr>"
  by (simp add: started_def addObserver_def Set_add_def init_def)

subsection \<open>The store operations on a store of entries\<close>

lemma some_equals_items:
  "list_all is_TodoItem xs \<Longrightarrow>
     some_equals xs (TodoItem r t) = Inr (\<exists>r'. TodoItem r' t \<in> set xs)"
proof (induction xs)
  case Nil
  then show ?case by simp
next
  case (Cons x xs)
  then show ?case by (cases x) auto
qed

lemma some_equals_null:
  "xs \<noteq> [] \<Longrightarrow> some_equals xs (Prim Null) = Inl TypeError"
  by (cases xs; cases "hd xs") auto

lemma find_text_absent:
  "list_all is_TodoItem xs \<Longrightarrow> \<nexists>r p. text = Prim p \<and> TodoItem r p \<in> set xs \<Longrightarrow>
     find_text xs text = Inr (Prim Undefined)"
proof (induction xs)
  case Nil
  then show ?case by simp
next
  case (Cons x xs)
  then show ?case by (cases x) auto
qed

lemma find_text_present:
  "list_all is_TodoItem xs \<Longrightarrow> TodoItem r p \<in> set xs \<Longrightarrow>
     \<exists>r'. TodoItem r' p \<in> set xs \<and> find_text xs (Prim p) = Inr (TodoItem r' p)"
proof (induction xs)
  case Nil
  then show ?case by simp
next
  case (Cons x xs)
  then show ?case by (cases x) auto
qed

lemma find_text_entries:
  "list_all is_TodoItem xs \<Longrightarrow>
     find_text xs text = Inr (Prim Undefined) \<or> (\<exists>r p. find_text xs text = Inr (TodoItem r p))"
proof (induction xs)
  case Nil
  then show ?case by simp
next
  case (Cons x xs)
  then show ?case by (cases x) auto
qed

lemma get_text_item:
  "list_all is_TodoItem xs \<Longrightarrow> Inr t \<in> set (map get_text xs) \<longleftrightarrow> (\<exists>r. TodoItem r t \<in> set xs)"
proof (induction xs)
  case Nil
  then show ?case by simp
next
  case (Cons x xs)
  then show ?case by (cases x) auto
qed

text \<open>Past the duplicate check, \<open>add\<close> is the insertion followed by one notification pass.\<close>

lemma add_unfold:
  "exists item s = Inr False \<Longrightarrow>
     snd (add item s) = snd (notify (s\<lparr>data := Set_add item (data s)\<rparr>))
     \<and> fst (add item s) =
         (case fst (notify (s\<lparr>data := Set_add item (data s)\<rparr>)) of
            Inl e \<Rightarrow> Inl e | Inr u \<Rightarrow> Inr True)"
  by (cases "notify (s\<lparr>data := Set_add item (data s)\<rparr>)")
     (auto simp: add_def split: sum.splits)

lemma deleteByText_unfold:
  "findByText text s = Inr item \<Longrightarrow> truthy item \<Longrightarrow>
     snd (deleteByText text s) = snd (notify (s\<lparr>data := Set_delete item (data s)\<rparr>))
     \<and> fst (deleteByText text s) =
         (case fst (notify (s\<lparr>data := Set_delete item (data s)\<rparr>)) of
            Inl e \<Rightarrow> Inl e | Inr u \<Rightarrow> Inr True)"
  by (cases "notify (s\<lparr>data := Set_delete item (data s)\<rparr>)")
     (auto simp: deleteByText_def split: sum.splits)

subsection \<open>Replacing the list\<close>

lemma fresh_items_texts:
  "map get_text (fresh_items n ts) = map Inr ts" "length (fresh_items n ts) = length ts"
  by (induction ts arbitrary: n) simp_all

text \<open>
  Every object the loop builds is new, so \<open>Set.add\<close> never finds it in \<open>#data\<close>: each input
  element whose \<open>text\<close> can be read yields one entry.
\<close>

lemma replace_loop_fresh:
  assumes "map get_text its = map Inr ts"
    and "\<forall>r t. TodoItem r t \<in> set (data s) \<longrightarrow> r < next_id s"
  shows "replace_loop its s =
     (Inr (), s\<lparr>data := data s @ fresh_items (next_id s) ts, next_id := next_id s + length ts\<rparr>)"
  using assms
proof (induction its arbitrary: s ts)
  case Nil
  then show ?case by simp
next
  case (Cons x xs)
  then obtain t ts' where ts: "ts = t # ts'" "get_text x = Inr t" "map get_text xs = map Inr ts'"
    by (cases ts) auto
  let ?s1 = "s\<lparr>next_id := next_id s + 1, data := data s @ [TodoItem (next_id s) t]\<rparr>"
  have new: "TodoItem (next_id s) t \<notin> set (data s)"
    using Cons.prems(2) by auto
  have step: "replace_loop (x # xs) s = replace_loop xs ?s1"
    using ts(2) new by (simp add: new_TodoItem_def Set_add_def)
  have inv: "\<forall>r t. TodoItem r t \<in> set (data ?s1) \<longrightarrow> r < next_id ?s1"
    using Cons.prems(2) by (auto simp: less_Suc_eq)
  show ?case
    unfolding step Cons.IH [OF ts(3) inv] by (simp add: ts(1))
qed

lemma replaceList_fresh:
  assumes "map get_text its = map Inr ts"
  shows "replaceList (Arr its) s =
     notify (s\<lparr>data := fresh_items (next_id s) ts, next_id := next_id s + length ts\<rparr>)"
proof -
  have "replace_loop its (s\<lparr>data := []\<rparr>) =
      (Inr (), s\<lparr>data := fresh_items (next_id s) ts, next_id := next_id s + length ts\<rparr>)"
    using replace_loop_fresh [OF assms, of "s\<lparr>data := []\<rparr>"] by simp
  then show ?thesis
    by (simp add: replaceList_def)
qed

text \<open>The list after \<open>replaceList\<close> is as long as the input, whatever texts repeat in it.\<close>

lemma replaceList_length:
  assumes "map get_text its = map Inr ts"
  shows "length (items (snd (replaceList (Arr its) s))) = length its"
proof -
  have "length its = length ts"
    using assms by (metis length_map)
  then show ?thesis
    by (simp add: replaceList_fresh [OF assms] items_def notify_frame fresh_items_texts)
qed

subsection \<open>The snapshot parser at the blobs used below\<close>

lemma JSON_parse_snapshot:
  "JSON_parse ''[{\"text\":\"Buy eggs\"}]'' = Inr (Arr [Rec [(''text'', Str ''Buy eggs'')]])"
  by (simp add: JSON_parse_def)

lemma JSON_parse_duplicates:
  "JSON_parse ''[{\"text\":\"a\"},{\"text\":\"a\"}]'' =
     Inr (Arr [Rec [(''text'', Str ''a'')], Rec [(''text'', Str ''a'')]])"
  by (simp add: JSON_parse_def)

lemma JSON_parse_malformed:
  "JSON_parse ''not json'' = Inl SyntaxError"
  by (simp add: JSON_parse_def)

section \<open>The claims\<close>

subsection \<open>Replacing the list and value uniqueness\<close>

text \<open>
  C1. \<open>replaceList\<close> (the specification's \<open>replaceAll\<close>) is claimed to collapse equal texts
  of its input, so that \<open>replaceAll([{text:"a"},{text:"a"},{text:"b"}])\<close> leaves two entries
  and notifies once. The code clears the collection, builds one fresh \<open>TodoItem\<close> per record
  and notifies once, but it adds the fresh objects to a \<open>Set\<close>, which compares them by
  identity: on this input three entries remain, two of them with the text \<open>a\<close>.
\<close>

theorem replaceList_keeps_duplicates:
  "replaceList (Arr [Rec [(''text'', Str ''a'')], Rec [(''text'', Str ''a'')],
                     Rec [(''text'', Str ''b'')]]) init =
     (Inr (),
      \<lparr>data = [TodoItem 0 (Str ''a''), TodoItem 1 (Str ''a''), TodoItem 2 (Str ''b'')],
       observers = [], next_id = 3, calls = [], notifications = 1\<rparr>)"
  by (simp add: replaceList_def new_TodoItem_def Set_add_def notify_def init_def)

text \<open>
  \<open>add\<close> and \<open>deleteByText\<close> keep the texts of a store of entries distinct.
\<close>

lemma add_preserves_unique:
  assumes "list_all is_TodoItem (data s)" "unique_by_text s"
  shows "unique_by_text (snd (add (TodoItem r t) s))"
proof (cases "\<exists>r'. TodoItem r' t \<in> set (data s)")
  case True
  then have "add (TodoItem r t) s = (Inr False, s)"
    using assms(1) by (simp add: add_def exists_def some_equals_items)
  then show ?thesis using assms(2) by simp
next
  case False
  with assms(1) have ex: "exists (TodoItem r t) s = Inr False"
    by (simp add: exists_def some_equals_items)
  from False have "Inr t \<notin> set (map get_text (data s))"
    using get_text_item [OF assms(1)] by blast
  moreover from False have "Set_add (TodoItem r t) (data s) = data s @ [TodoItem r t]"
    by (auto simp: Set_add_def)
  ultimately show ?thesis
    using assms(2) add_unfold [OF ex] by (simp add: unique_by_text_def notify_frame)
qed

lemma deleteByText_preserves_unique:
  assumes "unique_by_text s"
  shows "unique_by_text (snd (deleteByText text s))"
proof (cases "findByText text s")
  case (Inl e)
  then show ?thesis using assms by (simp add: deleteByText_def)
next
  case (Inr item)
  show ?thesis
  proof (cases "truthy item")
    case False
    with Inr show ?thesis using assms by (simp add: deleteByText_def)
  next
    case True
    have "distinct (map get_text (removeAll item (data s)))"
      using assms by (simp add: unique_by_text_def removeAll_filter_not_eq distinct_map_filter)
    then show ?thesis
      using deleteByText_unfold [OF Inr True]
      by (simp add: unique_by_text_def notify_frame Set_delete_def)
  qed
qed

text \<open>
  C2. The store is claimed to hold at most one entry per text after every operation.
  \<open>add\<close> and \<open>deleteByText\<close> keep it so, \<open>replaceList\<close> does not: called on the empty
  store with two records of the same text, directly or by \<open>load\<close> from a snapshot in which
  a text occurs twice, it leaves two entries with that text.
\<close>

theorem replaceList_breaks_uniqueness:
  "unique_by_text init
   \<and> \<not> unique_by_text
         (snd (replaceList (Arr [Rec [(''text'', Str ''a'')], Rec [(''text'', Str ''a'')]]) init))
   \<and> \<not> unique_by_text
         (snd (load JSON_parse [''todoList'' \<mapsto> ''[{\"text\":\"a\"},{\"text\":\"a\"}]''] init))"
  by (simp add: unique_by_text_def load_def JSON_parse_duplicates replaceList_def
      new_TodoItem_def Set_add_def notify_def init_def)

subsection \<open>Notification\<close>

text \<open>
  C3, as the code has it. A callback that throws is claimed not to keep the remaining
  callbacks from running. \<open>notify\<close> has no handler around a call: it calls the registered
  callbacks in registration order and stops at the first one that throws. The callbacks
  after it are not called in that pass, and the exception leaves \<open>notify\<close> and the mutation
  that called it: \<open>add\<close> throws instead of returning true, after the item was inserted.
  When no callback throws, each registered one is called, in order.
\<close>

theorem notify_aborts_at_first_throw:
  "notify s =
     (case find cb_throws (observers s) of
        None \<Rightarrow>
          (Inr (), s\<lparr>notifications := notifications s + 1, calls := calls s @ observers s\<rparr>)
      | Some c \<Rightarrow>
          (Inl (Thrown (cb_id c)),
           s\<lparr>notifications := notifications s + 1,
             calls := calls s @ takeWhile (\<lambda>obs. \<not> cb_throws obs) (observers s) @ [c]\<rparr>))
   \<and> (exists item s = Inr False \<and> find cb_throws (observers s) = Some c' \<longrightarrow>
        fst (add item s) = Inl (Thrown (cb_id c'))
        \<and> data (snd (add item s)) = Set_add item (data s))"
proof (intro conjI impI)
  show "notify s =
     (case find cb_throws (observers s) of
        None \<Rightarrow>
          (Inr (), s\<lparr>notifications := notifications s + 1, calls := calls s @ observers s\<rparr>)
      | Some c \<Rightarrow>
          (Inl (Thrown (cb_id c)),
           s\<lparr>notifications := notifications s + 1,
             calls := calls s @ takeWhile (\<lambda>obs. \<not> cb_throws obs) (observers s) @ [c]\<rparr>))"
    by (simp add: notify_def forEach_obs_find split: option.split)
next
  assume h: "exists item s = Inr False \<and> find cb_throws (observers s) = Some c'"
  let ?s1 = "s\<lparr>data := Set_add item (data s)\<rparr>"
  from h have "fst (notify ?s1) = Inl (Thrown (cb_id c'))"
    by (simp add: notify_def forEach_obs_find)
  with h show "fst (add item s) = Inl (Thrown (cb_id c'))"
    using add_unfold [of item s] by simp
  from h show "data (snd (add item s)) = Set_add item (data s)"
    using add_unfold [of item s] by (simp add: notify_frame)
qed

theorem notify_aborts_at_first_throw_witness:
  "notify (addObserver (Callback 2 False) (addObserver (Callback 1 True) init)) =
     (Inl (Thrown 1),
      \<lparr>data = [], observers = [Callback 1 True, Callback 2 False], next_id = 0,
       calls = [Callback 1 True], notifications = 1\<rparr>)
   \<and> fst (add (TodoItem 0 (Str ''a''))
             (addObserver (Callback 2 False) (addObserver (Callback 1 True) init)))
       = Inl (Thrown 1)
   \<and> data (snd (add (TodoItem 0 (Str ''a''))
             (addObserver (Callback 2 False) (addObserver (Callback 1 True) init))))
       = [TodoItem 0 (Str ''a'')]"
  using notify_aborts_at_first_throw
    [of "addObserver (Callback 2 False) (addObserver (Callback 1 True) init)"
        "TodoItem 0 (Str ''a'')" "Callback 1 True"]
  by (simp add: addObserver_def Set_add_def init_def exists_def)

text \<open>
  With a throwing callback registered first and a second one after it, the second is
  registered but not called, and both \<open>notify\<close> and \<open>add\<close> end in the first one's exception.
\<close>

theorem notify_isolation_counterexample:
  "Callback 2 False
     \<in> set (observers (addObserver (Callback 2 False) (addObserver (Callback 1 True) init)))
   \<and> Callback 2 False \<notin> set (calls (snd (notify
         (addObserver (Callback 2 False) (addObserver (Callback 1 True) init)))))
   \<and> fst (notify (addObserver (Callback 2 False) (addObserver (Callback 1 True) init)))
       = Inl (Thrown 1)
   \<and> fst (add (TodoItem 0 (Str ''a''))
             (addObserver (Callback 2 False) (addObserver (Callback 1 True) init)))
       = Inl (Thrown 1)"
  by (simp add: notify_def add_def exists_def addObserver_def Set_add_def init_def)

text \<open>
  C9, as the code has it. Registering the same callback twice with \<open>addObserver\<close> (the
  specification's \<open>register\<close>) is the same as registering it once, and a following \<open>notify\<close>
  never calls it twice: the observers are a Set, so their list has no repetition, and the
  pass calls it at most once. It is claimed to call it exactly once. That holds when no other
  registered callback throws; when a callback registered before it throws, the pass ends
  there and the callback registered twice is not called at all.
\<close>

theorem addObserver_twice:
  "addObserver c (addObserver c s) = addObserver c s
   \<and> (distinct (observers s) \<longrightarrow>
        count_list (calls (snd (notify (addObserver c (addObserver c s))))) c
          \<le> count_list (calls s) c + 1)
   \<and> (distinct (observers s) \<and> (\<forall>obs \<in> set (observers s). obs \<noteq> c \<longrightarrow> \<not> cb_throws obs) \<longrightarrow>
        count_list (calls (snd (notify (addObserver c (addObserver c s))))) c
          = count_list (calls s) c + 1)
   \<and> (c \<notin> set (observers s) \<and> (\<exists>obs \<in> set (observers s). cb_throws obs) \<longrightarrow>
        count_list (calls (snd (notify (addObserver c (addObserver c s))))) c
          = count_list (calls s) c)"
proof -
  let ?os = "Set_add c (observers s)"
  let ?s1 = "addObserver c s\<lparr>notifications := notifications (addObserver c s) + 1\<rparr>"
  have idem: "addObserver c (addObserver c s) = addObserver c s"
    by (simp add: addObserver_def Set_add_idem)
  have n: "snd (notify (addObserver c s)) = snd (forEach_obs ?os ?s1)"
    by (simp add: notify_def addObserver_def)
  obtain pre zs where pre: "?os = pre @ zs"
      "calls (snd (forEach_obs ?os ?s1)) = calls ?s1 @ pre"
      "c \<in> set ?os \<and> (\<forall>obs \<in> set ?os. obs \<noteq> c \<longrightarrow> \<not> cb_throws obs) \<longrightarrow> c \<in> set pre"
    using forEach_obs_calls [of ?os ?s1 c] by blast
  have c1: "calls ?s1 = calls s"
    by (simp add: addObserver_def)
  have le: "count_list pre c \<le> 1" if "distinct (observers s)"
  proof -
    from that have "distinct ?os" by (rule Set_add_distinct)
    then have "distinct pre" using pre(1) by simp
    then show ?thesis by (simp add: distinct_count_list)
  qed
  have eq: "count_list pre c = 1"
    if "distinct (observers s)" "\<forall>obs \<in> set (observers s). obs \<noteq> c \<longrightarrow> \<not> cb_throws obs"
  proof -
    from that(1) have "distinct ?os" by (rule Set_add_distinct)
    then have d: "distinct pre" using pre(1) by simp
    have "c \<in> set pre"
      using pre(3) that(2) by (simp add: Set_add_set)
    with d show ?thesis by (simp add: distinct_count_list)
  qed
  have "calls (snd (notify (addObserver c s))) = calls s @ pre"
    by (simp only: n pre(2) c1)
  moreover have "count_list (calls (snd (notify (addObserver c s)))) c = count_list (calls s) c"
    if new: "c \<notin> set (observers s)" and thr: "\<exists>obs \<in> set (observers s). cb_throws obs"
  proof -
    from new have os: "?os = observers s @ [c]"
      by (simp add: Set_add_def)
    have a: "forEach_obs ?os ?s1 = forEach_obs (observers s) ?s1"
      unfolding os using thr by (rule forEach_obs_append_throw)
    obtain pre' zs' where p: "observers s = pre' @ zs'"
        "calls (snd (forEach_obs (observers s) ?s1)) = calls ?s1 @ pre'"
      using forEach_obs_calls [of "observers s" ?s1 c] by blast
    from p(1) new have "c \<notin> set pre'" by auto
    moreover have "calls (snd (notify (addObserver c s))) = calls s @ pre'"
      by (simp only: n a p(2) c1)
    ultimately show ?thesis by simp
  qed
  ultimately show ?thesis
    using le eq by (simp add: idem)
qed

theorem addObserver_twice_witness:
  "addObserver (Callback 1 False) (addObserver (Callback 1 False) started)
     = addObserver (Callback 1 False) started
   \<and> calls (snd (notify (addObserver (Callback 1 False) (addObserver (Callback 1 False) started))))
       = [Callback 0 False, Callback 1 False]
   \<and> count_list (calls (snd (notify
        (addObserver (Callback 1 False) (addObserver (Callback 1 False) started)))))
        (Callback 1 False) = 1
   \<and> count_list (calls (snd (notify
        (addObserver (Callback 3 False) (addObserver (Callback 3 False)
           (addObserver (Callback 2 True) init))))))
        (Callback 3 False) = 0"
  using addObserver_twice [of "Callback 1 False" started]
    addObserver_twice [of "Callback 3 False" "addObserver (Callback 2 True) init"]
  by (simp add: started_eq init_def addObserver_def Set_add_def notify_def)

text \<open>
  With a throwing callback registered first, a callback registered twice after it is in the
  observer set once and a notification does not call it.
\<close>

theorem addObserver_twice_counterexample:
  "observers (addObserver (Callback 3 False) (addObserver (Callback 3 False)
       (addObserver (Callback 2 True) init)))
     = [Callback 2 True, Callback 3 False]
   \<and> calls (snd (notify (addObserver (Callback 3 False) (addObserver (Callback 3 False)
       (addObserver (Callback 2 True) init)))))
     = [Callback 2 True]
   \<and> count_list (calls (snd (notify (addObserver (Callback 3 False) (addObserver (Callback 3 False)
       (addObserver (Callback 2 True) init))))))
       (Callback 3 False) = 0"
  by (simp add: init_def addObserver_def Set_add_def notify_def)

subsection \<open>Adding and deleting\<close>

text \<open>
  C4, as the code has it. \<open>add(e)\<close> is claimed to return true whenever no entry of equal
  value is present. On a store of entries, \<open>add(e)\<close> for an entry \<open>e\<close> with text \<open>t\<close>: when an
  entry with text \<open>t\<close> is present it returns false and leaves the whole state as it was (no
  mutation, no notification); otherwise \<open>e\<close> is inserted and \<open>notify\<close> is called exactly
  once, and \<open>add\<close> returns true when no registered callback throws, while it ends in the
  exception of the first callback that throws when one does, the insertion being kept. A
  second \<open>add\<close> of an entry with the same text, of whatever identity, then returns false and
  changes nothing, so the list keeps its length and the two calls notified once in total.
\<close>

theorem add_rejects_duplicates:
  assumes entries: "list_all is_TodoItem (data s)"
  shows "((\<exists>r'. TodoItem r' t \<in> set (data s)) \<longrightarrow> add (TodoItem r t) s = (Inr False, s))
    \<and> ((\<nexists>r'. TodoItem r' t \<in> set (data s)) \<longrightarrow>
         data (snd (add (TodoItem r t) s)) = data s @ [TodoItem r t]
         \<and> notifications (snd (add (TodoItem r t) s)) = notifications s + 1
         \<and> ((\<forall>obs \<in> set (observers s). \<not> cb_throws obs) \<longrightarrow>
              fst (add (TodoItem r t) s) = Inr True)
         \<and> (find cb_throws (observers s) = Some c \<longrightarrow>
              fst (add (TodoItem r t) s) = Inl (Thrown (cb_id c)))
         \<and> add (TodoItem r2 t) (snd (add (TodoItem r t) s))
             = (Inr False, snd (add (TodoItem r t) s)))"
proof (intro conjI impI)
  assume "\<exists>r'. TodoItem r' t \<in> set (data s)"
  then show "add (TodoItem r t) s = (Inr False, s)"
    using entries by (simp add: add_def exists_def some_equals_items)
next
  assume new: "\<nexists>r'. TodoItem r' t \<in> set (data s)"
  let ?s1 = "s\<lparr>data := Set_add (TodoItem r t) (data s)\<rparr>"
  let ?s2 = "snd (add (TodoItem r t) s)"
  from new entries have ex: "exists (TodoItem r t) s = Inr False"
    by (simp add: exists_def some_equals_items)
  note u = add_unfold [OF ex]
  from new have sa: "Set_add (TodoItem r t) (data s) = data s @ [TodoItem r t]"
    by (auto simp: Set_add_def)
  show d: "data ?s2 = data s @ [TodoItem r t]"
    using u sa by (simp add: notify_frame)
  show "notifications ?s2 = notifications s + 1"
    using u by (simp add: notify_frame)
  have "list_all is_TodoItem (data ?s2)"
    using entries d by simp
  then have "exists (TodoItem r2 t) ?s2 = Inr True"
    using d by (auto simp add: exists_def some_equals_items)
  then show "add (TodoItem r2 t) ?s2 = (Inr False, ?s2)"
    by (simp add: add_def)
  {
    assume "\<forall>obs \<in> set (observers s). \<not> cb_throws obs"
    then have "fst (notify ?s1) = Inr ()"
      by (intro notify_returns) simp
    then show "fst (add (TodoItem r t) s) = Inr True"
      using u by simp
  }
  {
    assume "find cb_throws (observers s) = Some c"
    then have "fst (notify ?s1) = Inl (Thrown (cb_id c))"
      by (intro notify_throws) simp
    then show "fst (add (TodoItem r t) s) = Inl (Thrown (cb_id c))"
      using u by simp
  }
qed

theorem add_rejects_duplicates_witness:
  "add (TodoItem 1 (Str ''Buy milk'')) (started\<lparr>data := [TodoItem 0 (Str ''Buy milk'')]\<rparr>)
     = (Inr False, started\<lparr>data := [TodoItem 0 (Str ''Buy milk'')]\<rparr>)
   \<and> data (snd (add (TodoItem 0 (Str ''Buy milk'')) started)) = [TodoItem 0 (Str ''Buy milk'')]
   \<and> notifications (snd (add (TodoItem 0 (Str ''Buy milk'')) started)) = 1
   \<and> fst (add (TodoItem 0 (Str ''Buy milk'')) started) = Inr True
   \<and> add (TodoItem 1 (Str ''Buy milk'')) (snd (add (TodoItem 0 (Str ''Buy milk'')) started))
       = (Inr False, snd (add (TodoItem 0 (Str ''Buy milk'')) started))
   \<and> fst (add (TodoItem 0 (Str ''Buy milk'')) (addObserver (Callback 2 True) started))
       = Inl (Thrown 2)"
  using add_rejects_duplicates
      [of "started\<lparr>data := [TodoItem 0 (Str ''Buy milk'')]\<rparr>" "Str ''Buy milk''" 1 "Callback 2 True" 1]
    add_rejects_duplicates [of started "Str ''Buy milk''" 0 "Callback 2 True" 1]
    add_rejects_duplicates [of "addObserver (Callback 2 True) started" "Str ''Buy milk''" 0 "Callback 2 True" 1]
  by (simp add: started_eq addObserver_def Set_add_def)

text \<open>
  With a throwing callback registered, \<open>add\<close> of an entry that is not in the store inserts it
  and ends in the callback's exception instead of returning true.
\<close>

theorem add_returns_true_counterexample:
  "exists (TodoItem 0 (Str ''Buy milk'')) (addObserver (Callback 2 True) started) = Inr False
   \<and> fst (add (TodoItem 0 (Str ''Buy milk'')) (addObserver (Callback 2 True) started))
       = Inl (Thrown 2)
   \<and> data (snd (add (TodoItem 0 (Str ''Buy milk'')) (addObserver (Callback 2 True) started)))
       = [TodoItem 0 (Str ''Buy milk'')]"
  by (simp add: started_eq addObserver_def Set_add_def add_def exists_def notify_def)

text \<open>
  C5, as the code has it. \<open>deleteByText(t)\<close> (the specification's \<open>removeByText\<close>) is claimed
  to return true whenever an entry with the text is found. On a store of entries: when no
  entry has the text \<open>t\<close> it returns false and leaves the whole state as it was, so no
  notification fires; when one has, an entry with that text is removed and the others stay
  and \<open>notify\<close> is called exactly once, and \<open>deleteByText\<close> returns true when no registered
  callback throws, while it ends in the exception of the first callback that throws when
  one does, the removal being kept.
\<close>

theorem deleteByText_spec:
  assumes entries: "list_all is_TodoItem (data s)"
  shows "((\<nexists>r p. text = Prim p \<and> TodoItem r p \<in> set (data s)) \<longrightarrow>
            deleteByText text s = (Inr False, s))
    \<and> ((\<exists>r. TodoItem r p \<in> set (data s)) \<longrightarrow>
         (\<exists>r. TodoItem r p \<in> set (data s)
              \<and> data (snd (deleteByText (Prim p) s)) = removeAll (TodoItem r p) (data s))
         \<and> notifications (snd (deleteByText (Prim p) s)) = notifications s + 1
         \<and> ((\<forall>obs \<in> set (observers s). \<not> cb_throws obs) \<longrightarrow>
              fst (deleteByText (Prim p) s) = Inr True)
         \<and> (find cb_throws (observers s) = Some c \<longrightarrow>
              fst (deleteByText (Prim p) s) = Inl (Thrown (cb_id c))))"
proof (intro conjI impI)
  assume "\<nexists>r p. text = Prim p \<and> TodoItem r p \<in> set (data s)"
  with entries have "find_text (data s) text = Inr (Prim Undefined)"
    by (rule find_text_absent)
  then show "deleteByText text s = (Inr False, s)"
    by (simp add: deleteByText_def findByText_def)
next
  assume "\<exists>r. TodoItem r p \<in> set (data s)"
  then obtain r' where r': "TodoItem r' p \<in> set (data s)"
      "find_text (data s) (Prim p) = Inr (TodoItem r' p)"
    using find_text_present [OF entries] by blast
  let ?s1 = "s\<lparr>data := Set_delete (TodoItem r' p) (data s)\<rparr>"
  have f: "findByText (Prim p) s = Inr (TodoItem r' p)"
    using r'(2) by (simp add: findByText_def)
  have u: "snd (deleteByText (Prim p) s) = snd (notify ?s1)"
      "fst (deleteByText (Prim p) s) = (case fst (notify ?s1) of Inl e \<Rightarrow> Inl e | Inr u \<Rightarrow> Inr True)"
    using deleteByText_unfold [OF f] by simp_all
  show "\<exists>r. TodoItem r p \<in> set (data s)
          \<and> data (snd (deleteByText (Prim p) s)) = removeAll (TodoItem r p) (data s)"
    using r'(1) u(1) by (auto simp: notify_frame Set_delete_def)
  show "notifications (snd (deleteByText (Prim p) s)) = notifications s + 1"
    using u(1) by (simp add: notify_frame)
  {
    assume "\<forall>obs \<in> set (observers s). \<not> cb_throws obs"
    then have "fst (notify ?s1) = Inr ()"
      by (intro notify_returns) simp
    then show "fst (deleteByText (Prim p) s) = Inr True"
      using u(2) by simp
  }
  {
    assume "find cb_throws (observers s) = Some c"
    then have "fst (notify ?s1) = Inl (Thrown (cb_id c))"
      by (intro notify_throws) simp
    then show "fst (deleteByText (Prim p) s) = Inl (Thrown (cb_id c))"
      using u(2) by simp
  }
qed

theorem deleteByText_spec_witness:
  "deleteByText (Prim (Str ''missing'')) (started\<lparr>data := [TodoItem 0 (Str ''Buy milk'')]\<rparr>)
     = (Inr False, started\<lparr>data := [TodoItem 0 (Str ''Buy milk'')]\<rparr>)
   \<and> data (snd (deleteByText (Prim (Str ''Buy milk''))
        (started\<lparr>data := [TodoItem 0 (Str ''Buy milk'')]\<rparr>))) = []
   \<and> notifications (snd (deleteByText (Prim (Str ''Buy milk''))
        (started\<lparr>data := [TodoItem 0 (Str ''Buy milk'')]\<rparr>))) = 1
   \<and> fst (deleteByText (Prim (Str ''Buy milk''))
        (started\<lparr>data := [TodoItem 0 (Str ''Buy milk'')]\<rparr>)) = Inr True
   \<and> fst (deleteByText (Prim (Str ''Buy milk''))
        (addObserver (Callback 2 True) started\<lparr>data := [TodoItem 0 (Str ''Buy milk'')]\<rparr>))
       = Inl (Thrown 2)"
  using deleteByText_spec
      [of "started\<lparr>data := [TodoItem 0 (Str ''Buy milk'')]\<rparr>" "Prim (Str ''missing'')"
          "Str ''Buy milk''" "Callback 2 True"]
    deleteByText_spec
      [of "addObserver (Callback 2 True) started\<lparr>data := [TodoItem 0 (Str ''Buy milk'')]\<rparr>"
          "Prim (Str ''missing'')" "Str ''Buy milk''" "Callback 2 True"]
  by (simp add: started_eq addObserver_def Set_add_def)

text \<open>
  With a throwing callback registered, \<open>deleteByText\<close> of a text that is in the store removes
  the entry and ends in the callback's exception instead of returning true.
\<close>

theorem deleteByText_returns_true_counterexample:
  "findByText (Prim (Str ''Buy milk''))
      (addObserver (Callback 2 True) started\<lparr>data := [TodoItem 0 (Str ''Buy milk'')]\<rparr>)
     = Inr (TodoItem 0 (Str ''Buy milk''))
   \<and> fst (deleteByText (Prim (Str ''Buy milk''))
        (addObserver (Callback 2 True) started\<lparr>data := [TodoItem 0 (Str ''Buy milk'')]\<rparr>))
       = Inl (Thrown 2)
   \<and> data (snd (deleteByText (Prim (Str ''Buy milk''))
        (addObserver (Callback 2 True) started\<lparr>data := [TodoItem 0 (Str ''Buy milk'')]\<rparr>)))
       = []"
  by (simp add: started_eq addObserver_def Set_add_def Set_delete_def deleteByText_def
      findByText_def notify_def)

text \<open>
  C8, as the code has it. Passing \<open>null\<close> to a store operation is claimed to raise at once
  in every store state. No operation checks its payload, and what \<open>null\<close> does depends on
  the operation. \<open>add(null)\<close> and \<open>exists(null)\<close> end in a TypeError, before any mutation or
  notification, on a store that holds anything, because the comparison with the first
  element reads \<open>null.text\<close>; on the empty store nothing is compared, \<open>exists(null)\<close> is
  false and \<open>add(null)\<close> inserts \<open>null\<close>, calls \<open>notify\<close> once and returns true (the
  registered callbacks returning normally). \<open>deleteByText(null)\<close> and \<open>findByText(null)\<close>
  never end in a TypeError on a store of entries: \<open>null\<close> is looked up like any text, and
  with no entry of that text \<open>deleteByText\<close> returns false and \<open>findByText\<close> returns
  \<open>undefined\<close>, the state being left as it was. \<open>replaceList(null)\<close> ends in a TypeError,
  but only after it has emptied the store, and without a notification.
\<close>

theorem null_payload:
  "(data s \<noteq> [] \<longrightarrow> add (Prim Null) s = (Inl TypeError, s))
   \<and> (data s = [] \<longrightarrow>
        data (snd (add (Prim Null) s)) = [Prim Null]
        \<and> notifications (snd (add (Prim Null) s)) = notifications s + 1
        \<and> ((\<forall>obs \<in> set (observers s). \<not> cb_throws obs) \<longrightarrow> fst (add (Prim Null) s) = Inr True))
   \<and> exists (Prim Null) s = (if data s = [] then Inr False else Inl TypeError)
   \<and> (list_all is_TodoItem (data s) \<longrightarrow>
        fst (deleteByText (Prim Null) s) \<noteq> Inl TypeError
        \<and> ((\<nexists>r. TodoItem r Null \<in> set (data s)) \<longrightarrow>
             deleteByText (Prim Null) s = (Inr False, s)
             \<and> findByText (Prim Null) s = Inr (Prim Undefined)))
   \<and> replaceList (Prim Null) s = (Inl TypeError, s\<lparr>data := []\<rparr>)"
proof (intro conjI impI)
  assume "data s \<noteq> []"
  then show "add (Prim Null) s = (Inl TypeError, s)"
    by (simp add: add_def exists_def some_equals_null)
next
  assume e: "data s = []"
  let ?s1 = "s\<lparr>data := Set_add (Prim Null) (data s)\<rparr>"
  from e have ex: "exists (Prim Null) s = Inr False"
    by (simp add: exists_def)
  note u = add_unfold [OF ex]
  show "data (snd (add (Prim Null) s)) = [Prim Null]"
    using u e by (simp add: notify_frame Set_add_def)
  show "notifications (snd (add (Prim Null) s)) = notifications s + 1"
    using u by (simp add: notify_frame)
  assume "\<forall>obs \<in> set (observers s). \<not> cb_throws obs"
  then have "fst (notify ?s1) = Inr ()"
    by (intro notify_returns) simp
  then show "fst (add (Prim Null) s) = Inr True"
    using u by simp
next
  show "exists (Prim Null) s = (if data s = [] then Inr False else Inl TypeError)"
    by (simp add: exists_def some_equals_null)
next
  assume entries: "list_all is_TodoItem (data s)"
  show "fst (deleteByText (Prim Null) s) \<noteq> Inl TypeError"
  proof (cases "findByText (Prim Null) s = Inr (Prim Undefined)")
    case True
    then show ?thesis by (simp add: deleteByText_def)
  next
    case False
    then obtain r p where f: "findByText (Prim Null) s = Inr (TodoItem r p)"
      using find_text_entries [OF entries, of "Prim Null"] by (auto simp: findByText_def)
    have "truthy (TodoItem r p)" by simp
    from deleteByText_unfold [OF f this] show ?thesis
      using notify_no_TypeError [of "s\<lparr>data := Set_delete (TodoItem r p) (data s)\<rparr>"]
      by (auto split: sum.splits)
  qed
  assume "\<nexists>r. TodoItem r Null \<in> set (data s)"
  then have "\<nexists>r p. Prim Null = Prim p \<and> TodoItem r p \<in> set (data s)"
    by simp
  with entries have f: "find_text (data s) (Prim Null) = Inr (Prim Undefined)"
    by (rule find_text_absent)
  then show "deleteByText (Prim Null) s = (Inr False, s)"
    by (simp add: deleteByText_def findByText_def)
  from f show "findByText (Prim Null) s = Inr (Prim Undefined)"
    by (simp add: findByText_def)
next
  show "replaceList (Prim Null) s = (Inl TypeError, s\<lparr>data := []\<rparr>)"
    by (simp add: replaceList_def)
qed

theorem null_payload_witness:
  "add (Prim Null) (started\<lparr>data := [TodoItem 0 (Str ''a'')]\<rparr>) =
     (Inl TypeError, started\<lparr>data := [TodoItem 0 (Str ''a'')]\<rparr>)
   \<and> data (snd (add (Prim Null) started)) = [Prim Null]
   \<and> notifications (snd (add (Prim Null) started)) = 1
   \<and> fst (add (Prim Null) started) = Inr True
   \<and> deleteByText (Prim Null) (started\<lparr>data := [TodoItem 0 (Str ''a'')]\<rparr>)
       = (Inr False, started\<lparr>data := [TodoItem 0 (Str ''a'')]\<rparr>)
   \<and> findByText (Prim Null) (started\<lparr>data := [TodoItem 0 (Str ''a'')]\<rparr>) = Inr (Prim Undefined)
   \<and> replaceList (Prim Null) (started\<lparr>data := [TodoItem 0 (Str ''a'')]\<rparr>)
       = (Inl TypeError, started)"
  using null_payload [of "started\<lparr>data := [TodoItem 0 (Str ''a'')]\<rparr>"] null_payload [of started]
  by (simp add: started_eq)

text \<open>
  On the empty store \<open>add(null)\<close> returns true, \<open>null\<close> being stored and a notification
  sent. On a store of one entry \<open>deleteByText(null)\<close> returns false without raising, and
  \<open>replaceList(null)\<close> raises only once that entry is gone.
\<close>

theorem null_payload_counterexample:
  "add (Prim Null) init = (Inr True, init\<lparr>data := [Prim Null], notifications := 1\<rparr>)
   \<and> deleteByText (Prim Null) (init\<lparr>data := [TodoItem 0 (Str ''a'')]\<rparr>)
       = (Inr False, init\<lparr>data := [TodoItem 0 (Str ''a'')]\<rparr>)
   \<and> replaceList (Prim Null) (init\<lparr>data := [TodoItem 0 (Str ''a'')]\<rparr>) = (Inl TypeError, init)"
  by (simp add: add_def exists_def notify_def Set_add_def init_def deleteByText_def
      findByText_def replaceList_def)

text \<open>
  The scenario of the specification: on the started page, adding "Buy milk" returns true,
  adding it again returns false, and deleting it by text returns true and empties the list.
\<close>

lemma scenario_buy_milk:
  "add (TodoItem 0 (Str ''Buy milk'')) started =
     (Inr True, started\<lparr>data := [TodoItem 0 (Str ''Buy milk'')], notifications := 1,
        calls := [Callback 0 False, Callback 1 False]\<rparr>)
   \<and> add (TodoItem 1 (Str ''Buy milk''))
        (started\<lparr>data := [TodoItem 0 (Str ''Buy milk'')], notifications := 1,
           calls := [Callback 0 False, Callback 1 False]\<rparr>) =
       (Inr False, started\<lparr>data := [TodoItem 0 (Str ''Buy milk'')], notifications := 1,
          calls := [Callback 0 False, Callback 1 False]\<rparr>)
   \<and> deleteByText (Prim (Str ''Buy milk''))
        (started\<lparr>data := [TodoItem 0 (Str ''Buy milk'')], notifications := 1,
           calls := [Callback 0 False, Callback 1 False]\<rparr>) =
       (Inr True, started\<lparr>data := [], notifications := 2,
          calls := [Callback 0 False, Callback 1 False, Callback 0 False, Callback 1 False]\<rparr>)"
  by (simp add: started_eq add_def deleteByText_def exists_def findByText_def notify_def
      Set_add_def Set_delete_def)

subsection \<open>Command dispatch\<close>

text \<open>
  C6. For a command object, \<open>CE.execute\<close> answers what \<open>add(payload)\<close> answers when the type
  is \<open>add\<close>, what \<open>deleteByText(payload)\<close> answers when the type is \<open>deleteByText\<close>, and for
  \<open>UPDATE_TODO\<close>, \<open>CLEAR_TODO\<close> and every other type it returns \<open>undefined\<close> without throwing
  and leaves the store as it was.
\<close>

theorem execute_routes:
  "execute (CObj (Command ADD_TODO p)) s = returned (add p s)
   \<and> execute (CObj (Command REMOVE_TODO_BY_TEXT p)) s = returned (deleteByText p s)
   \<and> execute (CObj (Command UPDATE_TODO p)) s = (Inr Undefined, s)
   \<and> execute (CObj (Command CLEAR_TODO p)) s = (Inr Undefined, s)
   \<and> (ty \<noteq> ADD_TODO \<and> ty \<noteq> REMOVE_TODO_BY_TEXT \<longrightarrow>
        execute (CObj (Command ty p)) s = (Inr Undefined, s))"
  by (simp add: ADD_TODO_def REMOVE_TODO_BY_TEXT_def UPDATE_TODO_def CLEAR_TODO_def)

theorem execute_routes_witness:
  "execute (CObj (Command (Prim (Str ''add'')) (TodoItem 0 (Str ''Buy milk'')))) init =
     (Inr (Bool True), init\<lparr>data := [TodoItem 0 (Str ''Buy milk'')], notifications := 1\<rparr>)
   \<and> execute (CObj (Command (Prim (Str ''deleteByText'')) (Prim (Str ''missing'')))) init =
       (Inr (Bool False), init)
   \<and> execute (CObj (Command (Prim (Str ''UPDATE_TODO'')) (Prim Undefined))) init =
       (Inr Undefined, init)
   \<and> execute (CObj (Command (Prim (Str ''CLEAR_TODO'')) (Prim Undefined))) init =
       (Inr Undefined, init)
   \<and> execute (CObj (Command (Prim (Str ''rename'')) (Prim (Str ''a'')))) init =
       (Inr Undefined, init)"
  using execute_routes [of "TodoItem 0 (Str ''Buy milk'')" init "Prim (Str ''rename'')"]
    execute_routes [of "Prim (Str ''missing'')" init "Prim (Str ''rename'')"]
    execute_routes [of "Prim Undefined" init "Prim (Str ''rename'')"]
    execute_routes [of "Prim (Str ''a'')" init "Prim (Str ''rename'')"]
  by (simp add: ADD_TODO_def REMOVE_TODO_BY_TEXT_def UPDATE_TODO_def CLEAR_TODO_def
      add_def deleteByText_def exists_def findByText_def notify_def Set_add_def init_def)

text \<open>
  C10. \<open>CE.execute\<close> is not total over its public input: called with \<open>null\<close> or
  \<open>undefined\<close>, destructuring \<open>command.type\<close> and \<open>command.payload\<close> throws a TypeError
  before any routing, and the store is not touched.
\<close>

theorem execute_nullish_command:
  "execute CNull s = (Inl TypeError, s) \<and> execute CUndefined s = (Inl TypeError, s)"
  by simp

theorem execute_nullish_command_witness:
  "execute CNull init = (Inl TypeError, init) \<and> execute CUndefined init = (Inl TypeError, init)"
  using execute_nullish_command [of init] by simp

subsection \<open>Loading the snapshot\<close>

text \<open>
  C7, as the code has it. \<open>load\<close> is claimed to leave the store untouched, without
  throwing, when the stored blob is malformed. It does so when the key \<open>todoList\<close> is absent
  or holds the empty string. For any other blob it calls \<open>JSON.parse\<close> with no handler
  around it: when the parser accepts the blob, \<open>load\<close> is \<open>replaceList\<close> on the parsed value
  (for an array of records whose texts can be read: one entry per record, in order, and
  one notification); when the parser rejects it, that error leaves \<open>load\<close>, the store being
  as it was.
\<close>

theorem load_spec:
  "(localStorage ''todoList'' = None \<or> localStorage ''todoList'' = Some [] \<longrightarrow>
      load parse localStorage s = (Inr (), s))
   \<and> (localStorage ''todoList'' = Some d \<and> d \<noteq> [] \<and> parse d = Inr v \<longrightarrow>
        load parse localStorage s = replaceList v s)
   \<and> (localStorage ''todoList'' = Some d \<and> d \<noteq> [] \<and> parse d = Inr (Arr recs)
        \<and> map get_text recs = map Inr ts \<longrightarrow>
        map get_text (items (snd (load parse localStorage s))) = map Inr ts
        \<and> notifications (snd (load parse localStorage s)) = notifications s + 1)
   \<and> (localStorage ''todoList'' = Some d \<and> d \<noteq> [] \<and> parse d = Inl e \<longrightarrow>
        load parse localStorage s = (Inl e, s))"
  by (auto simp: load_def replaceList_fresh notify_frame items_def fresh_items_texts)

theorem load_spec_witness:
  "load JSON_parse Map.empty init = (Inr (), init)
   \<and> load JSON_parse [''todoList'' \<mapsto> ''[{\"text\":\"Buy eggs\"}]''] init
       = replaceList (Arr [Rec [(''text'', Str ''Buy eggs'')]]) init
   \<and> map get_text
       (items (snd (load JSON_parse [''todoList'' \<mapsto> ''[{\"text\":\"Buy eggs\"}]''] init)))
       = [Inr (Str ''Buy eggs'')]
   \<and> notifications (snd (load JSON_parse [''todoList'' \<mapsto> ''[{\"text\":\"Buy eggs\"}]''] init))
       = 1
   \<and> load JSON_parse [''todoList'' \<mapsto> ''not json''] init = (Inl SyntaxError, init)"
  using load_spec [where localStorage = Map.empty and s = init and parse = JSON_parse]
    load_spec [where localStorage = "[''todoList'' \<mapsto> ''[{\"text\":\"Buy eggs\"}]'']"
      and d = "''[{\"text\":\"Buy eggs\"}]''" and parse = JSON_parse
      and v = "Arr [Rec [(''text'', Str ''Buy eggs'')]]"
      and recs = "[Rec [(''text'', Str ''Buy eggs'')]]" and ts = "[Str ''Buy eggs'']"
      and s = init]
    load_spec [where localStorage = "[''todoList'' \<mapsto> ''not json'']" and d = "''not json''"
      and parse = JSON_parse and e = SyntaxError and s = init]
  by (simp add: JSON_parse_snapshot JSON_parse_malformed init_def replaceList_def
      new_TodoItem_def Set_add_def notify_def items_def)

text \<open>With a blob that is not JSON under the key, \<open>load\<close> ends in the parser's SyntaxError.\<close>

theorem load_malformed_counterexample:
  "load JSON_parse [''todoList'' \<mapsto> ''not json''] init = (Inl SyntaxError, init)"
  by (simp add: load_def JSON_parse_def)

end
